theory Spec2Isabelle
  imports Main "HOL-Library.Multiset"
begin

section \<open>Data model\<close>

text \<open>
  Instants (Go \<^verbatim>\<open>time.Time\<close>) are integers: the offset from the zero instant, so that
  \<^verbatim>\<open>t.IsZero()\<close> is \<open>t = 0\<close>. SQL \<^verbatim>\<open>DATETIME\<close> columns hold the same integers and
  \<^verbatim>\<open>ORDER BY created_at\<close> compares them chronologically.
\<close>

type_synonym time = int

definition IsZero :: "time \<Rightarrow> bool" where
  "IsZero t = (t = 0)"

text \<open>The Go struct \<^verbatim>\<open>types.Review\<close>, with the fields that \<^verbatim>\<open>reviews.go\<close> reads and writes.\<close>

record Review =
  ID :: int
  IssueID :: string
  ReviewType :: string
  Outcome :: string
  Reviewer :: string
  Notes :: string
  CreatedAt :: time

text \<open>
  The Go struct \<^verbatim>\<open>types.ReviewSession\<close>. Its fields \<^verbatim>\<open>ID\<close> and \<^verbatim>\<open>Reviewer\<close> are
  \<open>SessionID\<close> and \<open>SessionReviewer\<close> here, the plain names being those of
  \<open>Review\<close>; \<^verbatim>\<open>CompletedAt\<close> is a pointer, so an option.
\<close>

record ReviewSession =
  SessionID :: int
  RootIssueID :: string
  SessionReviewer :: string
  StartedAt :: time
  CompletedAt :: "time option"
  Summary :: string
  ItemsReviewed :: int
  ItemsApproved :: int
  ItemsNeedsRevision :: int
  ItemsDeferred :: int

text \<open>
  Table \<^verbatim>\<open>reviews\<close> (migration 020): \<^verbatim>\<open>notes\<close> is the one nullable column.
\<close>

record review_row =
  rv_id :: int
  rv_issue_id :: string
  rv_review_type :: string
  rv_outcome :: string
  rv_reviewer :: string
  rv_notes :: "string option"
  rv_created_at :: time

text \<open>
  Table \<^verbatim>\<open>issues\<close>: the key, the title, \<^verbatim>\<open>updated_at\<close>, and the three nullable review
  columns of migration 019.
\<close>

record issue_row =
  is_id :: string
  is_title :: string
  is_review_status :: "string option"
  is_reviewed_by :: "string option"
  is_reviewed_at :: "time option"
  is_updated_at :: time

text \<open>Table \<^verbatim>\<open>dirty_issues\<close>: the two columns the upsert of \<^verbatim>\<open>CreateReview\<close> names.\<close>

record dirty_row =
  dm_issue_id :: string
  dm_marked_at :: time

text \<open>Table \<^verbatim>\<open>events\<close>: the four columns the insert of \<^verbatim>\<open>CreateReview\<close> names.\<close>

record event_row =
  ev_issue_id :: string
  ev_event_type :: string
  ev_actor :: string
  ev_comment :: string

text \<open>Table \<^verbatim>\<open>review_sessions\<close> (the migration in \<^verbatim>\<open>part_001\<close>).\<close>

record session_row =
  rs_id :: int
  rs_root_issue_id :: string
  rs_reviewer :: string
  rs_started_at :: time
  rs_completed_at :: "time option"
  rs_summary :: "string option"
  rs_items_reviewed :: int
  rs_items_approved :: int
  rs_items_needs_revision :: int
  rs_items_deferred :: int

text \<open>
  The database as a transaction sees it: every table is the list of its rows in
  insertion order. \<open>reviews_seq\<close> is the \<^verbatim>\<open>sqlite_sequence\<close> entry that
  \<^verbatim>\<open>AUTOINCREMENT\<close> keeps for \<^verbatim>\<open>reviews\<close>, \<open>sessions_seq\<close> the one for
  \<^verbatim>\<open>review_sessions\<close>. \<open>foreign_keys\<close> is the connection's pragma: the schema
  declares \<^verbatim>\<open>FOREIGN KEY (issue_id) REFERENCES issues(id)\<close>, which SQLite enforces
  only when the pragma is on (the connection is opened outside these sources).
\<close>

record database =
  foreign_keys :: bool
  issues :: "issue_row list"
  reviews :: "review_row list"
  reviews_seq :: int
  dirty_issues :: "dirty_row list"
  events :: "event_row list"
  review_sessions :: "session_row list"
  sessions_seq :: int

text \<open>
  \<^verbatim>\<open>SQLiteStorage\<close>: the committed database, and a ghost counter of the transactions
  begun on it (never read by the code; it makes "before any transaction begins"
  statable).
\<close>

record SQLiteStorage =
  db :: database
  tx_begun :: nat

section \<open>Errors and faults\<close>

text \<open>
  Every \<^verbatim>\<open>ExecContext\<close>, \<^verbatim>\<open>QueryContext\<close> and \<^verbatim>\<open>Scan\<close> can return an error that does
  not depend on the data (a cancelled context, an I/O failure). The statements are
  named, and a fault oracle says which of them fail that way in a given call.
\<close>

datatype stmt =
  BeginTx | InsertReview | LastInsertId | UpdateIssue | MarkDirty | RecordEvent | CommitTx
  | InsertSession | SessionInsertId | UpdateSession | QuerySession | QueryIssue

datatype sql_error = DriverFault | CheckConstraint | ForeignKeyConstraint | RowidFull

text \<open>The errors \<^verbatim>\<open>CreateReview\<close> returns, one per \<^verbatim>\<open>fmt.Errorf\<close>, wrapping the cause.\<close>

datatype store_error =
  FailedBeginTx sql_error
  | FailedInsertReview sql_error
  | FailedGetReviewId sql_error
  | FailedUpdateIssue sql_error
  | FailedMarkDirty sql_error
  | FailedRecordEvent sql_error
  | FailedCommitTx sql_error
  | FailedCreateSession sql_error
  | FailedGetSessionId sql_error
  | FailedUpdateSession sql_error
  | FailedGetSession sql_error
  | FailedQueryReviews sql_error
  | FailedScanReview sql_error
  | RowsErr sql_error

section \<open>The statements of CreateReview\<close>

definition max_rowid :: int where
  "max_rowid = 9223372036854775807"

text \<open>
  \<^verbatim>\<open>INSERT INTO reviews (issue_id, review_type, outcome, reviewer, notes, created_at)\<close>.
  The table's \<^verbatim>\<open>CHECK\<close> on \<^verbatim>\<open>outcome\<close> and its foreign key are those of migration 020.
  The key is \<^verbatim>\<open>INTEGER PRIMARY KEY AUTOINCREMENT\<close>: one more than the largest rowid
  the table ever held, and the insert fails when that is the largest 64-bit integer.
  The result is the new database and the rowid \<^verbatim>\<open>LastInsertId\<close> reports.
\<close>

definition exec_insert_review ::
  "(stmt \<Rightarrow> bool) \<Rightarrow> database \<Rightarrow> Review \<Rightarrow> sql_error + (database \<times> int)" where
  "exec_insert_review fault tx review =
     (if fault InsertReview then Inl DriverFault
      else if Outcome review \<notin> set [''approved'', ''needs_revision'', ''deferred'']
        then Inl CheckConstraint
      else if foreign_keys tx \<and> IssueID review \<notin> set (map is_id (issues tx))
        then Inl ForeignKeyConstraint
      else
        (let largest = fold max (map rv_id (reviews tx)) (reviews_seq tx) in
         if largest \<ge> max_rowid then Inl RowidFull
         else
           (let rowid = largest + 1;
                row = \<lparr>rv_id = rowid, rv_issue_id = IssueID review,
                       rv_review_type = ReviewType review, rv_outcome = Outcome review,
                       rv_reviewer = Reviewer review, rv_notes = Some (Notes review),
                       rv_created_at = CreatedAt review\<rparr>
            in Inr (tx\<lparr>reviews := reviews tx @ [row], reviews_seq := rowid\<rparr>, rowid))))"

text \<open>
  \<^verbatim>\<open>UPDATE issues SET review_status = ?, reviewed_by = ?, reviewed_at = ?, updated_at = ?
  WHERE id = ?\<close>. Every row with the key is rewritten; with none the statement succeeds
  and changes nothing. The \<^verbatim>\<open>CHECK\<close> on \<^verbatim>\<open>review_status\<close> (migration 019) is tested
  on the rows written.
\<close>

definition exec_update_issue ::
  "(stmt \<Rightarrow> bool) \<Rightarrow> database \<Rightarrow> string \<Rightarrow> string \<Rightarrow> time \<Rightarrow> time \<Rightarrow> string
     \<Rightarrow> sql_error + database" where
  "exec_update_issue fault tx status by reviewed updated issue_id =
     (if fault UpdateIssue then Inl DriverFault
      else if issue_id \<in> set (map is_id (issues tx)) \<and>
              status \<notin> set ['''', ''unreviewed'', ''approved'', ''needs_revision'', ''deferred'']
        then Inl CheckConstraint
      else Inr (tx\<lparr>issues :=
                  map (\<lambda>i. if is_id i = issue_id
                            then i\<lparr>is_review_status := Some status, is_reviewed_by := Some by,
                                   is_reviewed_at := Some reviewed, is_updated_at := updated\<rparr>
                            else i) (issues tx)\<rparr>))"

text \<open>
  \<^verbatim>\<open>INSERT INTO dirty_issues (issue_id, marked_at) VALUES (?, ?)
  ON CONFLICT (issue_id) DO UPDATE SET marked_at = excluded.marked_at\<close>.
\<close>

definition exec_mark_dirty ::
  "(stmt \<Rightarrow> bool) \<Rightarrow> database \<Rightarrow> string \<Rightarrow> time \<Rightarrow> sql_error + database" where
  "exec_mark_dirty fault tx issue_id marked =
     (if fault MarkDirty then Inl DriverFault
      else if issue_id \<in> set (map dm_issue_id (dirty_issues tx))
        then Inr (tx\<lparr>dirty_issues :=
                    map (\<lambda>d. if dm_issue_id d = issue_id then d\<lparr>dm_marked_at := marked\<rparr> else d)
                      (dirty_issues tx)\<rparr>)
      else Inr (tx\<lparr>dirty_issues :=
                  dirty_issues tx @ [\<lparr>dm_issue_id = issue_id, dm_marked_at = marked\<rparr>]\<rparr>))"

text \<open>\<^verbatim>\<open>INSERT INTO events (issue_id, event_type, actor, comment) VALUES (?, ?, ?, ?)\<close>.\<close>

definition exec_record_event ::
  "(stmt \<Rightarrow> bool) \<Rightarrow> database \<Rightarrow> string \<Rightarrow> string \<Rightarrow> string \<Rightarrow> string
     \<Rightarrow> sql_error + database" where
  "exec_record_event fault tx issue_id event_type actor comment =
     (if fault RecordEvent then Inl DriverFault
      else Inr (tx\<lparr>events := events tx @
                  [\<lparr>ev_issue_id = issue_id, ev_event_type = event_type,
                    ev_actor = actor, ev_comment = comment\<rparr>]\<rparr>))"

section \<open>CreateReview\<close>

text \<open>
  The closure \<^verbatim>\<open>CreateReview\<close> hands to \<^verbatim>\<open>withTx\<close>, statement by statement. It writes
  \<^verbatim>\<open>CreatedAt\<close> and \<^verbatim>\<open>ID\<close> into the caller's \<^verbatim>\<open>review\<close>, so the review is returned
  beside the outcome. \<open>now\<close> is what \<^verbatim>\<open>time.Now()\<close> returns.
\<close>

definition CreateReview_fn ::
  "time \<Rightarrow> (stmt \<Rightarrow> bool) \<Rightarrow> string \<Rightarrow> database \<Rightarrow> Review
     \<Rightarrow> Review \<times> (store_error + database)" where
  "CreateReview_fn now fault actor tx review0 =
     (let review = (if IsZero (CreatedAt review0) then review0\<lparr>CreatedAt := now\<rparr> else review0)
      in case exec_insert_review fault tx review of
           Inl err \<Rightarrow> (review, Inl (FailedInsertReview err))
         | Inr (tx1, rowid) \<Rightarrow>
             if fault LastInsertId then (review, Inl (FailedGetReviewId DriverFault))
             else
               (let review = review\<lparr>ID := rowid\<rparr>
                in case exec_update_issue fault tx1 (Outcome review) (Reviewer review)
                          now now (IssueID review) of
                     Inl err \<Rightarrow> (review, Inl (FailedUpdateIssue err))
                   | Inr tx2 \<Rightarrow>
                       (case exec_mark_dirty fault tx2 (IssueID review) now of
                          Inl err \<Rightarrow> (review, Inl (FailedMarkDirty err))
                        | Inr tx3 \<Rightarrow>
                            (case exec_record_event fault tx3 (IssueID review) ''reviewed'' actor
                                    (''Review: '' @ Outcome review @ '' by '' @ Reviewer review) of
                               Inl err \<Rightarrow> (review, Inl (FailedRecordEvent err))
                             | Inr tx4 \<Rightarrow> (review, Inr tx4)))))"

text \<open>
  Modelled from the spec: \<^verbatim>\<open>withTx\<close> is not among the sources. The design document has
  a multi-table write "execute as one transaction; a failure at any step rolls back"
  all of it, and a store operation return when "the transaction commits or fails".
  So: a transaction is begun on the committed database, the closure runs on it, an
  error of the closure (or of begin or commit) leaves the committed database as it
  was, and only a closure that returns no error is committed.
\<close>

definition withTx ::
  "(stmt \<Rightarrow> bool) \<Rightarrow> SQLiteStorage \<Rightarrow> (database \<Rightarrow> 'a \<Rightarrow> 'a \<times> (store_error + database)) \<Rightarrow> 'a
     \<Rightarrow> store_error option \<times> 'a \<times> SQLiteStorage" where
  "withTx fault s fn a =
     (if fault BeginTx then (Some (FailedBeginTx DriverFault), a, s)
      else
        (let s1 = s\<lparr>tx_begun := Suc (tx_begun s)\<rparr>
         in case fn (db s1) a of
              (a', Inl err) \<Rightarrow> (Some err, a', s1)
            | (a', Inr tx) \<Rightarrow>
                if fault CommitTx then (Some (FailedCommitTx DriverFault), a', s1)
                else (None, a', s1\<lparr>db := tx\<rparr>)))"

text \<open>
  \<^verbatim>\<open>func (s *SQLiteStorage) CreateReview(ctx, review, actor) error\<close>: the returned error
  (\<open>None\<close> is \<^verbatim>\<open>nil\<close>), the caller's review as the call leaves it, and the store.
\<close>

definition CreateReview ::
  "time \<Rightarrow> (stmt \<Rightarrow> bool) \<Rightarrow> SQLiteStorage \<Rightarrow> Review \<Rightarrow> string
     \<Rightarrow> store_error option \<times> Review \<times> SQLiteStorage" where
  "CreateReview now fault s review actor = withTx fault s (CreateReview_fn now fault actor) review"

section \<open>Reading reviews\<close>

text \<open>
  What \<^verbatim>\<open>rows.Scan\<close> builds from a row of \<^verbatim>\<open>reviews\<close>: \<^verbatim>\<open>notes\<close> goes through a
  \<^verbatim>\<open>sql.NullString\<close>, and a \<^verbatim>\<open>NULL\<close> leaves \<^verbatim>\<open>r.Notes\<close> the empty string.
\<close>

definition scan_review :: "review_row \<Rightarrow> Review" where
  "scan_review row =
     \<lparr>ID = rv_id row, IssueID = rv_issue_id row, ReviewType = rv_review_type row,
      Outcome = rv_outcome row, Reviewer = rv_reviewer row,
      Notes = (case rv_notes row of Some n \<Rightarrow> n | None \<Rightarrow> []),
      CreatedAt = rv_created_at row\<rparr>"

text \<open>
  The three ways a query can fail independently of the data: \<^verbatim>\<open>QueryContext\<close> returns
  an error, \<^verbatim>\<open>Scan\<close> fails on the row with the given index, or \<^verbatim>\<open>rows.Next()\<close> stops
  before the row with the given index and \<^verbatim>\<open>rows.Err()\<close> reports why.
\<close>

datatype rows_fault = NoFault | QueryFails | ScanFails nat | NextFails nat




section \<open>Review sessions\<close>



text \<open>
  \<^verbatim>\<open>GetReviewSession\<close>: \<^verbatim>\<open>QueryRowContext(... WHERE id = ?).Scan(...)\<close>. \<^verbatim>\<open>Scan\<close> returns
  \<^verbatim>\<open>sql.ErrNoRows\<close> when no row has the key, and the function then returns
  \<^verbatim>\<open>nil, nil\<close>; any other error is wrapped. A \<^verbatim>\<open>NULL\<close> summary leaves \<^verbatim>\<open>Summary\<close> empty.
\<close>

definition GetReviewSession ::
  "(stmt \<Rightarrow> bool) \<Rightarrow> SQLiteStorage \<Rightarrow> int \<Rightarrow> ReviewSession option \<times> store_error option" where
  "GetReviewSession fault s ident =
     (if fault QuerySession then (None, Some (FailedGetSession DriverFault))
      else case find (\<lambda>r. rs_id r = ident) (review_sessions (db s)) of
             None \<Rightarrow> (None, None)
           | Some r \<Rightarrow>
               (Some \<lparr>SessionID = rs_id r, RootIssueID = rs_root_issue_id r,
                      SessionReviewer = rs_reviewer r, StartedAt = rs_started_at r,
                      CompletedAt = rs_completed_at r,
                      Summary = (case rs_summary r of Some t \<Rightarrow> t | None \<Rightarrow> []),
                      ItemsReviewed = rs_items_reviewed r, ItemsApproved = rs_items_approved r,
                      ItemsNeedsRevision = rs_items_needs_revision r,
                      ItemsDeferred = rs_items_deferred r\<rparr>, None))"

section \<open>The command line\<close>

text \<open>
  A flag set as \<^verbatim>\<open>cobra\<close> keeps it: the flags a command declares with their defaults,
  and the values given on the command line. A getter returns the given value, else the
  default; its error (unknown flag, other type) is dropped by the callers (\<^verbatim>\<open>_\<close>),
  which then see the zero value.
\<close>

datatype flag_value = BoolFlag bool | StringFlag string

definition lookup_flag ::
  "(string \<times> flag_value) list \<Rightarrow> (string \<times> flag_value) list \<Rightarrow> string \<Rightarrow> flag_value option" where
  "lookup_flag declared given name =
     (case map_of given name of Some v \<Rightarrow> Some v | None \<Rightarrow> map_of declared name)"

definition GetBool ::
  "(string \<times> flag_value) list \<Rightarrow> (string \<times> flag_value) list \<Rightarrow> string \<Rightarrow> bool" where
  "GetBool declared given name =
     (case lookup_flag declared given name of Some (BoolFlag b) \<Rightarrow> b | _ \<Rightarrow> False)"

definition GetString ::
  "(string \<times> flag_value) list \<Rightarrow> (string \<times> flag_value) list \<Rightarrow> string \<Rightarrow> string" where
  "GetString declared given name =
     (case lookup_flag declared given name of Some (StringFlag v) \<Rightarrow> v | _ \<Rightarrow> [])"

text \<open>The flags \<^verbatim>\<open>init\<close> declares on \<^verbatim>\<open>reviewCmd\<close>, with their defaults.\<close>

definition reviewCmd_Flags :: "(string \<times> flag_value) list" where
  "reviewCmd_Flags =
     [(''approve'', BoolFlag False), (''revise'', BoolFlag False), (''defer'', BoolFlag False),
      (''reviewer'', StringFlag []), (''notes'', StringFlag []),
      (''type'', StringFlag ''plan''), (''json'', BoolFlag False)]"

text \<open>
  Modelled from the spec: the constants \<^verbatim>\<open>types.ReviewOutcomeApproved\<close>,
  \<^verbatim>\<open>types.ReviewOutcomeNeedsRevision\<close> and \<^verbatim>\<open>types.ReviewOutcomeDeferred\<close> are not among
  the sources. The design has "outcome \<in> {approved, needs_revision, deferred}", the
  three values the \<^verbatim>\<open>CHECK\<close> of migration 020 admits.
\<close>

definition ReviewOutcomeApproved :: string where
  "ReviewOutcomeApproved = ''approved''"

definition ReviewOutcomeNeedsRevision :: string where
  "ReviewOutcomeNeedsRevision = ''needs_revision''"

definition ReviewOutcomeDeferred :: string where
  "ReviewOutcomeDeferred = ''deferred''"

text \<open>
  Modelled from the spec: the method \<^verbatim>\<open>types.ReviewType.IsValid\<close> is not among the
  sources. The design has "type \<in> {plan, implementation, security, custom}".
\<close>

definition ReviewType_IsValid :: "string \<Rightarrow> bool" where
  "ReviewType_IsValid rt = (rt \<in> set [''plan'', ''implementation'', ''security'', ''custom''])"

text \<open>
  The store behind the global \<^verbatim>\<open>store\<close>: the SQLite storage, or the storage of
  \<^verbatim>\<open>--no-db\<close> mode, on which the type assertion \<^verbatim>\<open>store.(*sqlite.SQLiteStorage)\<close> fails.
\<close>

datatype Storage = SQLite SQLiteStorage | NoDB "issue_row list"

text \<open>
  Modelled from the spec: \<^verbatim>\<open>store.GetIssue\<close> is not among the sources. It is a "point
  lookup" of the storage interface; its callers expect an error, or the issue with the
  key, \<^verbatim>\<open>nil\<close> when there is none.
\<close>

definition GetIssue ::
  "(stmt \<Rightarrow> bool) \<Rightarrow> Storage \<Rightarrow> string \<Rightarrow> issue_row option \<times> sql_error option" where
  "GetIssue fault st issueID =
     (if fault QueryIssue then (None, Some DriverFault)
      else (find (\<lambda>i. is_id i = issueID)
              (case st of SQLite s \<Rightarrow> issues (db s) | NoDB rows \<Rightarrow> rows), None))"

text \<open>
  What a command runs in: whether \<^verbatim>\<open>CheckReadonly\<close> stops it, the method
  \<^verbatim>\<open>ReviewType.IsValid\<close>, the globals \<^verbatim>\<open>actor\<close> and \<^verbatim>\<open>jsonOutput\<close>, the clock, the faults
  of the store, and the library functions that format the output
  (\<^verbatim>\<open>ui.RenderPass\<close> of the check mark, \<^verbatim>\<open>color\<close>'s cyan, \<^verbatim>\<open>%q\<close>, \<^verbatim>\<open>Time.Format\<close>).
\<close>

record cli_env =
  env_readonly :: bool
  env_IsValid :: "string \<Rightarrow> bool"
  env_actor :: string
  env_jsonOutput :: bool
  env_now :: time
  env_fault :: "stmt \<Rightarrow> bool"
  env_rows_fault :: rows_fault
  env_pass :: string
  env_cyan :: "string \<Rightarrow> string"
  env_quote :: "string \<Rightarrow> string"
  env_format :: "time \<Rightarrow> string"

text \<open>
  The process state a command works on: the store, and whether
  \<^verbatim>\<open>markDirtyAndScheduleFlush\<close> has been called.
\<close>

record cli_state =
  store :: Storage
  flush_scheduled :: bool

text \<open>
  Modelled from the spec: \<^verbatim>\<open>FatalError\<close> and \<^verbatim>\<open>CheckReadonly\<close> are not among the
  sources. A validation error is "rejected" and "surfaced to the caller": the command
  ends there with the message (the code after \<^verbatim>\<open>FatalError("issue %s not found")\<close>
  reads \<^verbatim>\<open>issue.Title\<close>, so \<^verbatim>\<open>FatalError\<close> does not return). One value per call
  site; \<open>WrongArgs\<close> is \<^verbatim>\<open>cobra.ExactArgs(1)\<close> refusing the arguments.
\<close>

datatype fatal =
  WrongArgs
  | ReadonlyMode
  | MustSpecifyOne
  | CanOnlySpecifyOne
  | ReviewerRequired
  | InvalidReviewType string
  | FailedToGetIssue sql_error
  | IssueNotFound string
  | RequiresSQLite
  | FailedToCreateReview store_error
  | FailedToGetHistory store_error

datatype printed =
  ReviewJSON "(string \<times> string) list"
  | HistoryJSON string string "Review list"
  | Lines "string list"

text \<open>\<^verbatim>\<open>formatReviewStatus\<close>; a \<^verbatim>\<open>NULL\<close> column reads as the empty status.\<close>

definition formatReviewStatus :: "string \<Rightarrow> string" where
  "formatReviewStatus status = (if status = [] then ''unreviewed'' else status)"

definition ReviewStatus :: "issue_row \<Rightarrow> string" where
  "ReviewStatus issue = (case is_review_status issue of Some v \<Rightarrow> v | None \<Rightarrow> [])"

text \<open>
  The \<^verbatim>\<open>Run\<close> function of \<^verbatim>\<open>reviewCmd\<close>, in the order of the source: the flags are
  read, the outcome flags counted, the flags validated, the outcome chosen, the issue
  looked up, the review created.
\<close>

record review_flags =
  f_approve :: bool
  f_revise :: bool
  f_deferReview :: bool
  f_reviewer :: string
  f_notes :: string
  f_reviewType :: string
  f_jsonOutput :: bool

text \<open>The seven \<^verbatim>\<open>cmd.Flags().Get...\<close> calls.\<close>

definition get_flags :: "(string \<times> flag_value) list \<Rightarrow> review_flags" where
  "get_flags given =
     \<lparr>f_approve = GetBool reviewCmd_Flags given ''approve'',
      f_revise = GetBool reviewCmd_Flags given ''revise'',
      f_deferReview = GetBool reviewCmd_Flags given ''defer'',
      f_reviewer = GetString reviewCmd_Flags given ''reviewer'',
      f_notes = GetString reviewCmd_Flags given ''notes'',
      f_reviewType = GetString reviewCmd_Flags given ''type'',
      f_jsonOutput = GetBool reviewCmd_Flags given ''json''\<rparr>"

text \<open>\<^verbatim>\<open>outcomeCount\<close>: one more for each outcome flag that is set.\<close>

definition outcomeCount :: "review_flags \<Rightarrow> nat" where
  "outcomeCount fl =
     (if f_approve fl then 1 else 0) + (if f_revise fl then 1 else 0)
     + (if f_deferReview fl then 1 else 0)"

text \<open>The \<^verbatim>\<open>switch\<close> that determines \<^verbatim>\<open>outcome\<close>; with no flag set it stays empty.\<close>

definition outcome_of :: "review_flags \<Rightarrow> string" where
  "outcome_of fl =
     (if f_approve fl then ReviewOutcomeApproved
      else if f_revise fl then ReviewOutcomeNeedsRevision
      else if f_deferReview fl then ReviewOutcomeDeferred
      else [])"

text \<open>The struct literal \<^verbatim>\<open>&types.Review{...}\<close>: \<^verbatim>\<open>ID\<close> and \<^verbatim>\<open>CreatedAt\<close> stay zero.\<close>

definition review_of :: "review_flags \<Rightarrow> string \<Rightarrow> Review" where
  "review_of fl issueID =
     \<lparr>ID = 0, IssueID = issueID, ReviewType = f_reviewType fl, Outcome = outcome_of fl,
      Reviewer = f_reviewer fl, Notes = f_notes fl, CreatedAt = 0\<rparr>"

text \<open>What the command prints after the review is created.\<close>

definition review_report :: "cli_env \<Rightarrow> review_flags \<Rightarrow> string \<Rightarrow> issue_row \<Rightarrow> printed" where
  "review_report env fl issueID issue =
     (if f_jsonOutput fl
      then ReviewJSON [(''issue_id'', issueID), (''review_status'', outcome_of fl),
                       (''reviewed_by'', f_reviewer fl), (''review_type'', f_reviewType fl),
                       (''notes'', f_notes fl)]
      else Lines ([env_pass env @ '' Reviewed issue: '' @ issueID,
                   ''  Title: '' @ is_title issue,
                   ''  Status: '' @ formatReviewStatus (ReviewStatus issue)
                     @ '' -> '' @ outcome_of fl,
                   ''  Reviewer: '' @ f_reviewer fl,
                   ''  Type: '' @ f_reviewType fl]
                  @ (if f_notes fl \<noteq> [] then [''  Notes: '' @ f_notes fl] else [])))"

text \<open>The body of \<^verbatim>\<open>Run\<close> after the flags are read.\<close>

definition review_run ::
  "cli_env \<Rightarrow> review_flags \<Rightarrow> string \<Rightarrow> cli_state \<Rightarrow> (fatal + printed) \<times> cli_state" where
  "review_run env fl issueID st =
     (if outcomeCount fl = 0 then (Inl MustSpecifyOne, st)
      else if outcomeCount fl > 1 then (Inl CanOnlySpecifyOne, st)
      else if f_reviewer fl = [] then (Inl ReviewerRequired, st)
      else if \<not> env_IsValid env (f_reviewType fl)
        then (Inl (InvalidReviewType (f_reviewType fl)), st)
      else
        (case GetIssue (env_fault env) (store st) issueID of
           (_, Some err) \<Rightarrow> (Inl (FailedToGetIssue err), st)
         | (None, None) \<Rightarrow> (Inl (IssueNotFound issueID), st)
         | (Some issue, None) \<Rightarrow>
             (case store st of
                NoDB rows \<Rightarrow> (Inl RequiresSQLite, st)
              | SQLite s \<Rightarrow>
                  (case CreateReview (env_now env) (env_fault env) s (review_of fl issueID)
                          (env_actor env) of
                     (Some err, review', s') \<Rightarrow>
                       (Inl (FailedToCreateReview err), st\<lparr>store := SQLite s'\<rparr>)
                   | (None, review', s') \<Rightarrow>
                       (Inr (review_report env fl issueID issue),
                        st\<lparr>store := SQLite s', flush_scheduled := True\<rparr>)))))"

text \<open>
  The command: \<^verbatim>\<open>cobra.ExactArgs(1)\<close>, \<^verbatim>\<open>CheckReadonly("review")\<close>, then \<^verbatim>\<open>Run\<close>.
\<close>

definition reviewCmd ::
  "cli_env \<Rightarrow> (string \<times> flag_value) list \<Rightarrow> string list \<Rightarrow> cli_state
     \<Rightarrow> (fatal + printed) \<times> cli_state" where
  "reviewCmd env given args st =
     (case args of
        [issueID] \<Rightarrow>
          if env_readonly env then (Inl ReadonlyMode, st)
          else review_run env (get_flags given) issueID st
      | _ \<Rightarrow> (Inl WrongArgs, st))"



section \<open>Sequences of calls and sample data\<close>

text \<open>
  A caller that makes one \<^verbatim>\<open>CreateReview\<close> call after the other on the same store, each
  with its own clock reading, faults, review and actor. The result is the store after
  the last call, or \<open>None\<close> as soon as one call returns an error.
\<close>

type_synonym review_call = "time \<times> (stmt \<Rightarrow> bool) \<times> Review \<times> string"

fun create_reviews :: "review_call list \<Rightarrow> SQLiteStorage \<Rightarrow> SQLiteStorage option" where
  "create_reviews [] s = Some s"
| "create_reviews ((now, fault, review, actor) # calls) s =
     (case CreateReview now fault s review actor of
        (None, r', s') \<Rightarrow> create_reviews calls s'
      | (Some err, r', s') \<Rightarrow> None)"

text \<open>A store with one issue and nothing else, and the reviews the examples use.\<close>

definition no_fault :: "stmt \<Rightarrow> bool" where
  "no_fault = (\<lambda>_. False)"

definition issue_bd1 :: issue_row where
  "issue_bd1 = \<lparr>is_id = ''bd-1'', is_title = ''Parse flags'',
                is_review_status = Some ''unreviewed'', is_reviewed_by = None,
                is_reviewed_at = None, is_updated_at = 1\<rparr>"

definition store_bd1 :: SQLiteStorage where
  "store_bd1 = \<lparr>db = \<lparr>foreign_keys = True, issues = [issue_bd1], reviews = [], reviews_seq = 0,
                      dirty_issues = [], events = [], review_sessions = [], sessions_seq = 0\<rparr>,
                tx_begun = 0\<rparr>"

definition review_approve :: Review where
  "review_approve = \<lparr>ID = 0, IssueID = ''bd-1'', ReviewType = ''plan'', Outcome = ''approved'',
                     Reviewer = ''alice'', Notes = [], CreatedAt = 0\<rparr>"

definition review_revise :: Review where
  "review_revise = \<lparr>ID = 0, IssueID = ''bd-1'', ReviewType = ''plan'',
                    Outcome = ''needs_revision'', Reviewer = ''carol'', Notes = ''add tests'',
                    CreatedAt = 0\<rparr>"

text \<open>The store after \<open>review_approve\<close> is created at time 10 by actor bob.\<close>

definition store_bd1_approved :: SQLiteStorage where
  "store_bd1_approved =
     \<lparr>db = \<lparr>foreign_keys = True,
            issues = [issue_bd1\<lparr>is_review_status := Some ''approved'',
                                is_reviewed_by := Some ''alice'',
                                is_reviewed_at := Some 10, is_updated_at := 10\<rparr>],
            reviews = [\<lparr>rv_id = 1, rv_issue_id = ''bd-1'', rv_review_type = ''plan'',
                        rv_outcome = ''approved'', rv_reviewer = ''alice'', rv_notes = Some [],
                        rv_created_at = 10\<rparr>],
            reviews_seq = 1,
            dirty_issues = [\<lparr>dm_issue_id = ''bd-1'', dm_marked_at = 10\<rparr>],
            events = [\<lparr>ev_issue_id = ''bd-1'', ev_event_type = ''reviewed'', ev_actor = ''bob'',
                       ev_comment = ''Review: approved by alice''\<rparr>],
            review_sessions = [], sessions_seq = 0\<rparr>,
      tx_begun = 1\<rparr>"

text \<open>A review whose caller has set \<^verbatim>\<open>CreatedAt\<close> (to 5) before the call.\<close>

definition review_dated :: Review where
  "review_dated = \<lparr>ID = 0, IssueID = ''bd-1'', ReviewType = ''plan'', Outcome = ''approved'',
                   Reviewer = ''alice'', Notes = [], CreatedAt = 5\<rparr>"


text \<open>
  A command environment: a writable store, the validity test of the design, the clock at
  10, no faults, and plain stand-ins for the formatting functions.
\<close>

definition env_sample :: cli_env where
  "env_sample =
     \<lparr>env_readonly = False, env_IsValid = ReviewType_IsValid, env_actor = ''bob'',
      env_jsonOutput = False, env_now = 10, env_fault = no_fault, env_rows_fault = NoFault,
      env_pass = ''ok'', env_cyan = (\<lambda>s. s), env_quote = (\<lambda>s. ''<'' @ s @ ''>''),
      env_format = (\<lambda>t. if t = 10 then ''day 10'' else ''day 20'')\<rparr>"


text \<open>The clock reading and the issue of a call in a sequence.\<close>

definition call_time :: "review_call \<Rightarrow> time" where
  "call_time c = fst c"

definition call_issue :: "review_call \<Rightarrow> string" where
  "call_issue c = IssueID (fst (snd (snd c)))"

text \<open>
  \<open>store_bd1\<close> after \<open>review_approve\<close> at time 10 and then \<open>review_revise\<close> at time 20,
  both by actor bob.
\<close>

definition store_bd1_revised :: SQLiteStorage where
  "store_bd1_revised =
     \<lparr>db = \<lparr>foreign_keys = True,
            issues = [issue_bd1\<lparr>is_review_status := Some ''needs_revision'',
                                is_reviewed_by := Some ''carol'',
                                is_reviewed_at := Some 20, is_updated_at := 20\<rparr>],
            reviews = [\<lparr>rv_id = 1, rv_issue_id = ''bd-1'', rv_review_type = ''plan'',
                        rv_outcome = ''approved'', rv_reviewer = ''alice'', rv_notes = Some [],
                        rv_created_at = 10\<rparr>,
                       \<lparr>rv_id = 2, rv_issue_id = ''bd-1'', rv_review_type = ''plan'',
                        rv_outcome = ''needs_revision'', rv_reviewer = ''carol'',
                        rv_notes = Some ''add tests'', rv_created_at = 20\<rparr>],
            reviews_seq = 2,
            dirty_issues = [\<lparr>dm_issue_id = ''bd-1'', dm_marked_at = 20\<rparr>],
            events = [\<lparr>ev_issue_id = ''bd-1'', ev_event_type = ''reviewed'', ev_actor = ''bob'',
                       ev_comment = ''Review: approved by alice''\<rparr>,
                      \<lparr>ev_issue_id = ''bd-1'', ev_event_type = ''reviewed'', ev_actor = ''bob'',
                       ev_comment = ''Review: needs_revision by carol''\<rparr>],
            review_sessions = [], sessions_seq = 0\<rparr>,
      tx_begun = 2\<rparr>"

section \<open>What one CreateReview does\<close>

text \<open>The closure, when it returns no error: the review it leaves and every table.\<close>

lemma CreateReview_fn_Inr:
  assumes "CreateReview_fn now fault actor tx review = (r', Inr tx')"
  shows "r' = review\<lparr>CreatedAt := (if IsZero (CreatedAt review) then now else CreatedAt review),
                     ID := fold max (map rv_id (reviews tx)) (reviews_seq tx) + 1\<rparr>"
    and "reviews tx' = reviews tx @
           [\<lparr>rv_id = ID r', rv_issue_id = IssueID review, rv_review_type = ReviewType review,
             rv_outcome = Outcome review, rv_reviewer = Reviewer review,
             rv_notes = Some (Notes review), rv_created_at = CreatedAt r'\<rparr>]"
    and "issues tx' =
           map (\<lambda>i. if is_id i = IssueID review
                     then i\<lparr>is_review_status := Some (Outcome review),
                            is_reviewed_by := Some (Reviewer review),
                            is_reviewed_at := Some now, is_updated_at := now\<rparr>
                     else i) (issues tx)"
    and "dirty_issues tx' =
           (if IssueID review \<in> set (map dm_issue_id (dirty_issues tx))
            then map (\<lambda>d. if dm_issue_id d = IssueID review then d\<lparr>dm_marked_at := now\<rparr> else d)
                   (dirty_issues tx)
            else dirty_issues tx @ [\<lparr>dm_issue_id = IssueID review, dm_marked_at = now\<rparr>])"
    and "events tx' = events tx @
           [\<lparr>ev_issue_id = IssueID review, ev_event_type = ''reviewed'', ev_actor = actor,
             ev_comment = ''Review: '' @ Outcome review @ '' by '' @ Reviewer review\<rparr>]"
    and "review_sessions tx' = review_sessions tx"
    and "sessions_seq tx' = sessions_seq tx"
    and "foreign_keys tx' = foreign_keys tx"
    and "reviews_seq tx' = ID r'"
  using assms
  unfolding CreateReview_fn_def exec_insert_review_def exec_update_issue_def
    exec_mark_dirty_def exec_record_event_def Let_def
  by (auto split: if_splits)

text \<open>When the closure returns no error.\<close>

lemma CreateReview_fn_succeeds_iff:
  "(\<exists>r' tx'. CreateReview_fn now fault actor tx review = (r', Inr tx')) \<longleftrightarrow>
     \<not> fault InsertReview \<and> \<not> fault LastInsertId \<and> \<not> fault UpdateIssue \<and> \<not> fault MarkDirty
     \<and> \<not> fault RecordEvent
     \<and> Outcome review \<in> set [''approved'', ''needs_revision'', ''deferred'']
     \<and> (foreign_keys tx \<longrightarrow> IssueID review \<in> set (map is_id (issues tx)))
     \<and> fold max (map rv_id (reviews tx)) (reviews_seq tx) < max_rowid"
  unfolding CreateReview_fn_def exec_insert_review_def exec_update_issue_def
    exec_mark_dirty_def exec_record_event_def Let_def
  by (auto split: if_splits)

lemma CreateReview_NoneD:
  assumes "CreateReview now fault s review actor = (None, r', s')"
  shows "\<exists>tx'. CreateReview_fn now fault actor (db s) review = (r', Inr tx')
           \<and> s' = \<lparr>db = tx', tx_begun = Suc (tx_begun s)\<rparr>"
  using assms unfolding CreateReview_def withTx_def Let_def
  by (auto split: if_splits prod.splits sum.splits)

lemma CreateReview_SomeD:
  assumes "CreateReview now fault s review actor = (Some e, r', s')"
  shows "db s' = db s"
  using assms unfolding CreateReview_def withTx_def Let_def
  by (auto split: if_splits prod.splits sum.splits)

lemma CreateReview_succeeds_iff:
  "(\<exists>r' s'. CreateReview now fault s review actor = (None, r', s')) \<longleftrightarrow>
     \<not> fault BeginTx \<and> \<not> fault CommitTx
     \<and> (\<exists>r' tx'. CreateReview_fn now fault actor (db s) review = (r', Inr tx'))"
  unfolding CreateReview_def withTx_def Let_def
  by (auto split: if_splits prod.splits sum.splits)

text \<open>What the \<^verbatim>\<open>UPDATE\<close> leaves in a row with the key.\<close>

lemma update_issue_fields:
  assumes "x \<in> set (map (\<lambda>i. if is_id i = k
                     then i\<lparr>is_review_status := a, is_reviewed_by := b, is_reviewed_at := c,
                            is_updated_at := t\<rparr>
                     else i) xs)"
    and "is_id x = k"
  shows "is_review_status x = a \<and> is_reviewed_by x = b \<and> is_reviewed_at x = c
         \<and> is_updated_at x = t"
proof -
  from assms(1) obtain i where
    i: "x = (if is_id i = k
             then i\<lparr>is_review_status := a, is_reviewed_by := b, is_reviewed_at := c,
                    is_updated_at := t\<rparr>
             else i)"
    by (auto simp only: set_map image_iff)
  show ?thesis
  proof (cases "is_id i = k")
    case True
    with i show ?thesis by simp
  next
    case False
    with i have "x = i" by simp
    with False assms(2) show ?thesis by simp
  qed
qed

section \<open>Sample runs\<close>

lemmas CreateReview_unfold =
  CreateReview_def withTx_def CreateReview_fn_def exec_insert_review_def
  exec_update_issue_def exec_mark_dirty_def exec_record_event_def Let_def IsZero_def
  max_rowid_def

lemma CreateReview_approve_run:
  "CreateReview 10 no_fault store_bd1 review_approve ''bob'' =
     (None, review_approve\<lparr>CreatedAt := 10, ID := 1\<rparr>, store_bd1_approved)"
  by (simp add: CreateReview_unfold no_fault_def store_bd1_def issue_bd1_def
        review_approve_def store_bd1_approved_def)

lemma CreateReview_event_fault_run:
  "CreateReview 10 (\<lambda>st. st = RecordEvent) store_bd1 review_approve ''bob'' =
     (Some (FailedRecordEvent DriverFault), review_approve\<lparr>CreatedAt := 10, ID := 1\<rparr>,
      store_bd1\<lparr>tx_begun := 1\<rparr>)"
  by (simp add: CreateReview_unfold store_bd1_def issue_bd1_def review_approve_def)

section \<open>Atomicity of CreateReview\<close>

text \<open>
  Claim C1. The four writes of \<^verbatim>\<open>CreateReview\<close> (the row of \<^verbatim>\<open>reviews\<close>, the review
  columns of the issue, the dirty marker, the event) are made in one transaction: a call
  that returns an error leaves the committed database as it was, whichever statement
  failed, and a call that returns no error has appended the review row, rewritten the
  issue's review columns, upserted the dirty marker and appended the event.
\<close>

theorem CreateReview_atomic:
  assumes "CreateReview now fault s review actor = (err, r', s')"
  shows "(err \<noteq> None \<longrightarrow> db s' = db s) \<and>
         (err = None \<longrightarrow>
            reviews (db s') = reviews (db s) @
              [\<lparr>rv_id = ID r', rv_issue_id = IssueID review, rv_review_type = ReviewType review,
                rv_outcome = Outcome review, rv_reviewer = Reviewer review,
                rv_notes = Some (Notes review), rv_created_at = CreatedAt r'\<rparr>]
          \<and> issues (db s') =
              map (\<lambda>i. if is_id i = IssueID review
                        then i\<lparr>is_review_status := Some (Outcome review),
                               is_reviewed_by := Some (Reviewer review),
                               is_reviewed_at := Some now, is_updated_at := now\<rparr>
                        else i) (issues (db s))
          \<and> dirty_issues (db s') =
              (if IssueID review \<in> set (map dm_issue_id (dirty_issues (db s)))
               then map (\<lambda>d. if dm_issue_id d = IssueID review then d\<lparr>dm_marked_at := now\<rparr>
                              else d) (dirty_issues (db s))
               else dirty_issues (db s) @ [\<lparr>dm_issue_id = IssueID review, dm_marked_at = now\<rparr>])
          \<and> events (db s') = events (db s) @
              [\<lparr>ev_issue_id = IssueID review, ev_event_type = ''reviewed'', ev_actor = actor,
                ev_comment = ''Review: '' @ Outcome review @ '' by '' @ Reviewer review\<rparr>])"
proof (cases err)
  case None
  with assms obtain tx' where fn: "CreateReview_fn now fault actor (db s) review = (r', Inr tx')"
    and s': "s' = \<lparr>db = tx', tx_begun = Suc (tx_begun s)\<rparr>"
    using CreateReview_NoneD by blast
  from s' have "db s' = tx'" by simp
  with CreateReview_fn_Inr(2-5)[OF fn] None show ?thesis by simp
next
  case (Some e)
  with assms have "db s' = db s" using CreateReview_SomeD by blast
  with Some show ?thesis by simp
qed

theorem CreateReview_atomic_witness:
  "CreateReview 10 no_fault store_bd1 review_approve ''bob'' =
     (None, review_approve\<lparr>CreatedAt := 10, ID := 1\<rparr>, store_bd1_approved)
   \<and> map rv_outcome (reviews (db store_bd1_approved)) = [''approved'']
   \<and> map is_review_status (issues (db store_bd1_approved)) = [Some ''approved'']
   \<and> map dm_marked_at (dirty_issues (db store_bd1_approved)) = [10]
   \<and> map ev_event_type (events (db store_bd1_approved)) = [''reviewed'']
   \<and> CreateReview 10 (\<lambda>st. st = RecordEvent) store_bd1 review_approve ''bob'' =
       (Some (FailedRecordEvent DriverFault), review_approve\<lparr>CreatedAt := 10, ID := 1\<rparr>,
        store_bd1\<lparr>tx_begun := 1\<rparr>)
   \<and> db (store_bd1\<lparr>tx_begun := 1\<rparr>) = db store_bd1"
  using CreateReview_atomic [OF CreateReview_approve_run]
    CreateReview_atomic [OF CreateReview_event_fault_run]
    CreateReview_approve_run CreateReview_event_fault_run
  by (simp add: store_bd1_approved_def store_bd1_def issue_bd1_def review_approve_def)

section \<open>The audit event\<close>



section \<open>The review columns of the issue\<close>

text \<open>
  What a successful call writes: the issue's review columns are the review's outcome and
  reviewer and the clock reading \<open>now\<close>, while the new row's \<^verbatim>\<open>created_at\<close> is the
  caller's \<^verbatim>\<open>CreatedAt\<close> unless that is zero. The two times agree when the caller leaves
  \<^verbatim>\<open>CreatedAt\<close> zero, as the review command does.
\<close>

lemma CreateReview_summary_fields:
  assumes "CreateReview now fault s review actor = (None, r', s')"
  shows "\<forall>x \<in> set (issues (db s')). is_id x = IssueID review \<longrightarrow>
           is_review_status x = Some (Outcome review)
           \<and> is_reviewed_by x = Some (Reviewer review)
           \<and> is_reviewed_at x = Some now"
    and "rv_created_at (last (reviews (db s'))) =
           (if CreatedAt review = 0 then now else CreatedAt review)"
proof -
  from assms obtain tx' where fn: "CreateReview_fn now fault actor (db s) review = (r', Inr tx')"
    and s': "s' = \<lparr>db = tx', tx_begun = Suc (tx_begun s)\<rparr>"
    using CreateReview_NoneD by blast
  from s' have d: "db s' = tx'" by simp
  show "\<forall>x \<in> set (issues (db s')). is_id x = IssueID review \<longrightarrow>
           is_review_status x = Some (Outcome review)
           \<and> is_reviewed_by x = Some (Reviewer review)
           \<and> is_reviewed_at x = Some now"
    unfolding d CreateReview_fn_Inr(3) [OF fn] using update_issue_fields by blast
  show "rv_created_at (last (reviews (db s'))) =
           (if CreatedAt review = 0 then now else CreatedAt review)"
    using CreateReview_fn_Inr(1,2) [OF fn] d by (simp add: IsZero_def)
qed

text \<open>
  Claim C2. The claim has \<^verbatim>\<open>reviewed_at\<close> of the issue equal \<^verbatim>\<open>created_at\<close> of the
  latest review also when the caller supplies \<^verbatim>\<open>CreatedAt\<close>. The code inserts the
  caller's \<^verbatim>\<open>CreatedAt\<close> into \<^verbatim>\<open>reviews\<close> but writes \<^verbatim>\<open>time.Now()\<close> into
  \<^verbatim>\<open>reviewed_at\<close>: with \<^verbatim>\<open>CreatedAt\<close> 5 and the clock at 10, the one review of the
  issue has \<^verbatim>\<open>created_at\<close> 5 and the issue has \<^verbatim>\<open>reviewed_at\<close> 10.
\<close>

theorem CreateReview_reviewed_at_differs:
  "(case CreateReview 10 no_fault store_bd1 review_dated ''bob'' of
      (err, r', s') \<Rightarrow>
        err = None
        \<and> map rv_created_at (reviews (db s')) = [5]
        \<and> map is_reviewed_at (issues (db s')) = [Some 10]
        \<and> map is_review_status (issues (db s')) = [Some ''approved'']
        \<and> map is_reviewed_by (issues (db s')) = [Some ''alice''])"
  by (simp add: CreateReview_unfold no_fault_def store_bd1_def issue_bd1_def review_dated_def)

section \<open>Listing the reviews of an issue\<close>













section \<open>Looking up a review session\<close>

text \<open>
  Claim C10. \<^verbatim>\<open>GetReviewSession\<close> with an id that no row of \<^verbatim>\<open>review_sessions\<close> has
  returns \<^verbatim>\<open>nil, nil\<close>: no session and no error, unless the query itself fails; an
  error is returned exactly when the query fails.
\<close>

theorem GetReviewSession_missing:
  assumes "ident \<notin> set (map rs_id (review_sessions (db s)))"
  shows "(\<not> fault QuerySession \<longrightarrow> GetReviewSession fault s ident = (None, None))
         \<and> (snd (GetReviewSession fault s ident) \<noteq> None \<longleftrightarrow> fault QuerySession)"
proof -
  from assms have "find (\<lambda>r. rs_id r = ident) (review_sessions (db s)) = None"
    by (auto simp: find_None_iff)
  then show ?thesis by (simp add: GetReviewSession_def)
qed

theorem GetReviewSession_missing_witness:
  "GetReviewSession no_fault store_bd1 7 = (None, None)"
proof -
  have absent: "7 \<notin> set (map rs_id (review_sessions (db store_bd1)))"
    by (simp add: store_bd1_def)
  show ?thesis
    using GetReviewSession_missing [OF absent, of no_fault]
    by (simp add: no_fault_def)
qed

section \<open>Reviews are only ever appended\<close>

lemma fold_max_start: "(b::int) \<le> fold max ys b"
proof (induction ys arbitrary: b)
  case Nil
  show ?case by simp
next
  case (Cons a ys)
  have "b \<le> max a b" by simp
  also have "\<dots> \<le> fold max ys (max a b)" by (rule Cons.IH)
  finally show ?case by simp
qed

lemma fold_max_ge: "(x::int) \<in> set xs \<Longrightarrow> x \<le> fold max xs a"
proof (induction xs arbitrary: a)
  case Nil
  then show ?case by simp
next
  case (Cons y ys)
  show ?case
  proof (cases "x = y")
    case True
    have "x \<le> max y a" using True by simp
    also have "\<dots> \<le> fold max ys (max y a)" by (rule fold_max_start)
    finally show ?thesis by simp
  next
    case False
    with Cons.prems have "x \<in> set ys" by simp
    then show ?thesis using Cons.IH by simp
  qed
qed

lemma new_rowid_fresh:
  "row \<in> set rows \<Longrightarrow> rv_id row \<noteq> fold max (map rv_id rows) seq + 1"
  using fold_max_ge [of "rv_id row" "map rv_id rows" seq] by auto

lemma CreateReview_None_reviews:
  assumes "CreateReview now fault s review actor = (None, r', s')"
  shows "reviews (db s') = reviews (db s) @
           [\<lparr>rv_id = ID r', rv_issue_id = IssueID review, rv_review_type = ReviewType review,
             rv_outcome = Outcome review, rv_reviewer = Reviewer review,
             rv_notes = Some (Notes review), rv_created_at = CreatedAt r'\<rparr>]"
    and "\<forall>row \<in> set (reviews (db s)). rv_id row \<noteq> ID r'"
    and "scan_review \<lparr>rv_id = ID r', rv_issue_id = IssueID review,
             rv_review_type = ReviewType review,
             rv_outcome = Outcome review, rv_reviewer = Reviewer review,
             rv_notes = Some (Notes review), rv_created_at = CreatedAt r'\<rparr> = r'"
proof -
  from assms obtain tx' where fn: "CreateReview_fn now fault actor (db s) review = (r', Inr tx')"
    and s': "s' = \<lparr>db = tx', tx_begun = Suc (tx_begun s)\<rparr>"
    using CreateReview_NoneD by blast
  from s' have d: "db s' = tx'" by simp
  show "reviews (db s') = reviews (db s) @
           [\<lparr>rv_id = ID r', rv_issue_id = IssueID review, rv_review_type = ReviewType review,
             rv_outcome = Outcome review, rv_reviewer = Reviewer review,
             rv_notes = Some (Notes review), rv_created_at = CreatedAt r'\<rparr>]"
    using CreateReview_fn_Inr(2)[OF fn] d by simp
  have idr: "ID r' = fold max (map rv_id (reviews (db s))) (reviews_seq (db s)) + 1"
    using CreateReview_fn_Inr(1)[OF fn] by simp
  show "\<forall>row \<in> set (reviews (db s)). rv_id row \<noteq> ID r'"
    unfolding idr using new_rowid_fresh by blast
  show "scan_review \<lparr>rv_id = ID r', rv_issue_id = IssueID review,
             rv_review_type = ReviewType review,
             rv_outcome = Outcome review, rv_reviewer = Reviewer review,
             rv_notes = Some (Notes review), rv_created_at = CreatedAt r'\<rparr> = r'"
    using CreateReview_fn_Inr(1)[OF fn] by (simp add: scan_review_def)
qed





section \<open>The dirty marker\<close>

lemma filter_key_absent:
  "k \<notin> set (map dm_issue_id ds) \<Longrightarrow> filter (\<lambda>d. dm_issue_id d = k) ds = []"
  by (induction ds) auto

lemma filter_key_singleton:
  "distinct (map dm_issue_id ds) \<Longrightarrow> i \<in> set (map dm_issue_id ds) \<Longrightarrow>
     \<exists>d. filter (\<lambda>d. dm_issue_id d = i) ds = [d] \<and> dm_issue_id d = i"
proof (induction ds)
  case Nil
  then show ?case by simp
next
  case (Cons a ds)
  show ?case
  proof (cases "dm_issue_id a = i")
    case True
    with Cons.prems have "i \<notin> set (map dm_issue_id ds)" by auto
    then have "filter (\<lambda>d. dm_issue_id d = i) ds = []" by (rule filter_key_absent)
    with True show ?thesis by simp
  next
    case False
    with Cons show ?thesis by auto
  qed
qed

lemma upsert_keys:
  "dm_issue_id \<circ> (\<lambda>d. if dm_issue_id d = i then d\<lparr>dm_marked_at := t\<rparr> else d) =
     dm_issue_id"
  by (rule ext) simp

lemma upsert_filter_same:
  "filter (\<lambda>d. dm_issue_id d = i)
     (map (\<lambda>d. if dm_issue_id d = i then d\<lparr>dm_marked_at := t\<rparr> else d) ds) =
   map (\<lambda>d. d\<lparr>dm_marked_at := t\<rparr>) (filter (\<lambda>d. dm_issue_id d = i) ds)"
  by (induction ds) auto

lemma upsert_filter_other:
  "j \<noteq> i \<Longrightarrow>
   filter (\<lambda>d. dm_issue_id d = i)
     (map (\<lambda>d. if dm_issue_id d = j then d\<lparr>dm_marked_at := t\<rparr> else d) ds) =
   filter (\<lambda>d. dm_issue_id d = i) ds"
  by (induction ds) auto

lemma update_issue_other:
  "j \<noteq> i \<Longrightarrow>
   filter (\<lambda>x. is_id x = i)
     (map (\<lambda>x. if is_id x = j
               then x\<lparr>is_review_status := a, is_reviewed_by := b, is_reviewed_at := c,
                      is_updated_at := t\<rparr>
               else x) xs) =
   filter (\<lambda>x. is_id x = i) xs"
  by (induction xs) auto

lemma CreateReview_None_marks:
  assumes run: "CreateReview now fault s review actor = (None, r', s')"
    and dist: "distinct (map dm_issue_id (dirty_issues (db s)))"
  shows "distinct (map dm_issue_id (dirty_issues (db s')))"
    and "filter (\<lambda>d. dm_issue_id d = IssueID review) (dirty_issues (db s')) =
           [\<lparr>dm_issue_id = IssueID review, dm_marked_at = now\<rparr>]"
    and "\<forall>x \<in> set (issues (db s')). is_id x = IssueID review \<longrightarrow> is_updated_at x = now"
    and "i \<noteq> IssueID review \<Longrightarrow>
           filter (\<lambda>d. dm_issue_id d = i) (dirty_issues (db s')) =
           filter (\<lambda>d. dm_issue_id d = i) (dirty_issues (db s))"
    and "i \<noteq> IssueID review \<Longrightarrow>
           filter (\<lambda>x. is_id x = i) (issues (db s')) = filter (\<lambda>x. is_id x = i) (issues (db s))"
proof -
  from run obtain tx' where fn: "CreateReview_fn now fault actor (db s) review = (r', Inr tx')"
    and s': "s' = \<lparr>db = tx', tx_begun = Suc (tx_begun s)\<rparr>"
    using CreateReview_NoneD by blast
  from s' have d: "db s' = tx'" by simp
  note dirty = CreateReview_fn_Inr(4) [OF fn, folded d]
  note iss = CreateReview_fn_Inr(3) [OF fn, folded d]
  show "distinct (map dm_issue_id (dirty_issues (db s')))"
    using dist unfolding dirty by (simp add: upsert_keys)
  show "filter (\<lambda>d. dm_issue_id d = IssueID review) (dirty_issues (db s')) =
           [\<lparr>dm_issue_id = IssueID review, dm_marked_at = now\<rparr>]"
  proof (cases "IssueID review \<in> set (map dm_issue_id (dirty_issues (db s)))")
    case True
    from filter_key_singleton [OF dist True] obtain d0 where
      "filter (\<lambda>d. dm_issue_id d = IssueID review) (dirty_issues (db s)) = [d0]"
      "dm_issue_id d0 = IssueID review" by blast
    with True show ?thesis unfolding dirty by (simp add: upsert_filter_same)
  next
    case False
    then have "filter (\<lambda>d. dm_issue_id d = IssueID review) (dirty_issues (db s)) = []"
      by (rule filter_key_absent)
    with False show ?thesis unfolding dirty by simp
  qed
  show "\<forall>x \<in> set (issues (db s')). is_id x = IssueID review \<longrightarrow> is_updated_at x = now"
    unfolding iss by auto
  show "filter (\<lambda>d. dm_issue_id d = i) (dirty_issues (db s')) =
           filter (\<lambda>d. dm_issue_id d = i) (dirty_issues (db s))" if "i \<noteq> IssueID review"
    using that unfolding dirty by (simp add: upsert_filter_other)
  show "filter (\<lambda>x. is_id x = i) (issues (db s')) = filter (\<lambda>x. is_id x = i) (issues (db s))"
    if "i \<noteq> IssueID review"
    using that unfolding iss by (simp add: update_issue_other)
qed

lemma CreateReview_revise_run:
  "CreateReview 20 no_fault store_bd1_approved review_revise ''bob'' =
     (None, review_revise\<lparr>CreatedAt := 20, ID := 2\<rparr>, store_bd1_revised)"
  by (simp add: CreateReview_unfold no_fault_def store_bd1_approved_def issue_bd1_def
        review_revise_def store_bd1_revised_def)

lemma create_reviews_two_run:
  "create_reviews [(10, no_fault, review_approve, ''bob''), (20, no_fault, review_revise, ''bob'')]
     store_bd1 = Some store_bd1_revised"
  by (simp add: CreateReview_approve_run CreateReview_revise_run)

lemma create_reviews_marks:
  assumes "distinct (map dm_issue_id (dirty_issues (db s)))"
    and "create_reviews calls s = Some s'"
  shows "distinct (map dm_issue_id (dirty_issues (db s')))
         \<and> (if filter (\<lambda>c. call_issue c = i) calls = []
            then filter (\<lambda>d. dm_issue_id d = i) (dirty_issues (db s')) =
                   filter (\<lambda>d. dm_issue_id d = i) (dirty_issues (db s))
                 \<and> filter (\<lambda>x. is_id x = i) (issues (db s')) =
                     filter (\<lambda>x. is_id x = i) (issues (db s))
            else filter (\<lambda>d. dm_issue_id d = i) (dirty_issues (db s')) =
                   [\<lparr>dm_issue_id = i,
                     dm_marked_at = call_time (last (filter (\<lambda>c. call_issue c = i) calls))\<rparr>]
                 \<and> (\<forall>x \<in> set (issues (db s')). is_id x = i \<longrightarrow>
                       is_updated_at x = call_time (last (filter (\<lambda>c. call_issue c = i) calls))))"
  using assms
proof (induction calls arbitrary: s)
  case Nil
  then show ?case by simp
next
  case (Cons c calls)
  obtain now fault review actor where c: "c = (now, fault, review, actor)"
    by (cases c) auto
  from Cons.prems(2) obtain r1 s1 where
    run: "CreateReview now fault s review actor = (None, r1, s1)"
    and rest: "create_reviews calls s1 = Some s'"
    unfolding c by (auto split: prod.splits option.splits)
  note step = CreateReview_None_marks [OF run Cons.prems(1)]
  note IH = Cons.IH [OF step(1) rest]
  show ?case
  proof (cases "filter (\<lambda>c. call_issue c = i) calls = []")
    case False
    with IH show ?thesis by simp
  next
    case True
    note tail = True
    show ?thesis
    proof (cases "IssueID review = i")
      case False
      with IH tail step(4,5) [of i] show ?thesis
        by (simp add: c call_issue_def)
    next
      case True
      from IH tail have d: "filter (\<lambda>d. dm_issue_id d = i) (dirty_issues (db s')) =
                   filter (\<lambda>d. dm_issue_id d = i) (dirty_issues (db s1))"
        and x: "filter (\<lambda>x. is_id x = i) (issues (db s')) =
                     filter (\<lambda>x. is_id x = i) (issues (db s1))"
        and dist: "distinct (map dm_issue_id (dirty_issues (db s')))"
        by simp_all
      have "\<forall>x \<in> set (issues (db s')). is_id x = i \<longrightarrow> is_updated_at x = now"
      proof (intro ballI impI)
        fix x assume "x \<in> set (issues (db s'))" "is_id x = i"
        then have "x \<in> set (filter (\<lambda>x. is_id x = i) (issues (db s')))" by simp
        then have "x \<in> set (issues (db s1))" unfolding x by simp
        with step(3) True \<open>is_id x = i\<close> show "is_updated_at x = now" by simp
      qed
      with d dist step(2) True tail show ?thesis
        by (simp add: c call_issue_def call_time_def)
    qed
  qed
qed

text \<open>
  Claim C4. Marking an issue dirty is an upsert on the issue's key. Start from a
  \<^verbatim>\<open>dirty_issues\<close> table with at most one row per issue (the uniqueness that
  \<^verbatim>\<open>ON CONFLICT (issue_id)\<close> presupposes) and run any sequence of \<^verbatim>\<open>CreateReview\<close>
  calls that all succeed, at least one of them for issue \<open>i\<close> (calls for other issues may
  be interleaved). Then the table still has at most one row per issue, it has exactly one
  row for \<open>i\<close>, that row's \<^verbatim>\<open>marked_at\<close> is the clock reading of the latest call for
  \<open>i\<close>, and it is not earlier than the \<^verbatim>\<open>updated_at\<close> the mutation left on the issue.
\<close>

theorem dirty_marker_upsert:
  assumes "distinct (map dm_issue_id (dirty_issues (db s)))"
    and "create_reviews calls s = Some s'"
    and "filter (\<lambda>c. call_issue c = i) calls \<noteq> []"
  shows "distinct (map dm_issue_id (dirty_issues (db s')))
         \<and> filter (\<lambda>d. dm_issue_id d = i) (dirty_issues (db s')) =
             [\<lparr>dm_issue_id = i,
               dm_marked_at = call_time (last (filter (\<lambda>c. call_issue c = i) calls))\<rparr>]
         \<and> (\<forall>x \<in> set (issues (db s')). is_id x = i \<longrightarrow>
               is_updated_at x \<le> call_time (last (filter (\<lambda>c. call_issue c = i) calls)))"
  using create_reviews_marks [OF assms(1,2), of i] assms(3) by simp

theorem dirty_marker_upsert_witness:
  "create_reviews [(10, no_fault, review_approve, ''bob''), (20, no_fault, review_revise, ''bob'')]
     store_bd1 = Some store_bd1_revised
   \<and> dirty_issues (db store_bd1_revised) = [\<lparr>dm_issue_id = ''bd-1'', dm_marked_at = 20\<rparr>]
   \<and> map is_updated_at (issues (db store_bd1_revised)) = [20]"
proof -
  have unique: "distinct (map dm_issue_id (dirty_issues (db store_bd1)))"
    by (simp add: store_bd1_def)
  have called:
    "filter (\<lambda>c. call_issue c = ''bd-1'')
       [(10, no_fault, review_approve, ''bob''), (20, no_fault, review_revise, ''bob'')] \<noteq> []"
    by (simp add: call_issue_def review_approve_def)
  note inst = dirty_marker_upsert [OF unique create_reviews_two_run called]
  show ?thesis
    using inst create_reviews_two_run
    by (simp add: store_bd1_revised_def call_issue_def call_time_def
          review_approve_def review_revise_def)
qed

section \<open>The review command\<close>

lemma outcome_of_valid:
  "outcomeCount fl = 1 \<Longrightarrow> outcome_of fl \<in> set [''approved'', ''needs_revision'', ''deferred'']"
  by (auto simp: outcomeCount_def outcome_of_def ReviewOutcomeApproved_def
        ReviewOutcomeNeedsRevision_def ReviewOutcomeDeferred_def split: if_splits)

lemma GetIssue_found:
  assumes "\<not> fault QueryIssue" "issueID \<in> set (map is_id (issues (db s)))"
  shows "\<exists>issue. GetIssue fault (SQLite s) issueID = (Some issue, None) \<and> is_id issue = issueID
           \<and> issue \<in> set (issues (db s))"
proof -
  from assms(2) have "find (\<lambda>i. is_id i = issueID) (issues (db s)) \<noteq> None"
    by (auto simp: find_None_iff)
  then obtain issue where f: "find (\<lambda>i. is_id i = issueID) (issues (db s)) = Some issue"
    by auto
  then have "is_id issue = issueID" "issue \<in> set (issues (db s))"
    by (auto simp: find_Some_iff)
  with f assms(1) show ?thesis by (simp add: GetIssue_def)
qed

lemma review_run_invalid:
  assumes "outcomeCount fl \<noteq> 1 \<or> f_reviewer fl = [] \<or> \<not> env_IsValid env (f_reviewType fl)"
  shows "review_run env fl issueID st =
           (Inl (if outcomeCount fl = 0 then MustSpecifyOne
                 else if outcomeCount fl > 1 then CanOnlySpecifyOne
                 else if f_reviewer fl = [] then ReviewerRequired
                 else InvalidReviewType (f_reviewType fl)), st)"
  using assms by (auto simp: review_run_def)

lemma review_run_succeeds:
  assumes "outcomeCount fl = 1" "f_reviewer fl \<noteq> []" "env_IsValid env (f_reviewType fl)"
    and "\<forall>x. \<not> env_fault env x"
    and "store st = SQLite s" "issueID \<in> set (map is_id (issues (db s)))"
    and "fold max (map rv_id (reviews (db s))) (reviews_seq (db s)) < max_rowid"
  shows "\<exists>issue r' s'.
           CreateReview (env_now env) (env_fault env) s (review_of fl issueID) (env_actor env) =
             (None, r', s')
           \<and> issue \<in> set (issues (db s)) \<and> is_id issue = issueID
           \<and> review_run env fl issueID st =
               (Inr (review_report env fl issueID issue),
                st\<lparr>store := SQLite s', flush_scheduled := True\<rparr>)"
proof -
  from assms(4,6) obtain issue where
    gi: "GetIssue (env_fault env) (SQLite s) issueID = (Some issue, None)"
    and iss: "is_id issue = issueID" "issue \<in> set (issues (db s))"
    using GetIssue_found by blast
  have "\<exists>r' tx'. CreateReview_fn (env_now env) (env_fault env) (env_actor env) (db s)
                    (review_of fl issueID) = (r', Inr tx')"
    unfolding CreateReview_fn_succeeds_iff
    using assms(4,6,7) outcome_of_valid [OF assms(1)] by (simp add: review_of_def)
  with assms(4) obtain r' s' where
    run: "CreateReview (env_now env) (env_fault env) s (review_of fl issueID) (env_actor env) =
            (None, r', s')"
    using CreateReview_succeeds_iff [of "env_now env" "env_fault env" s "review_of fl issueID"
        "env_actor env"] by blast
  have "review_run env fl issueID st =
               (Inr (review_report env fl issueID issue),
                st\<lparr>store := SQLite s', flush_scheduled := True\<rparr>)"
    using assms(1,2,3,5) gi run by (simp add: review_run_def)
  with run iss show ?thesis by blast
qed

text \<open>
  Claim C3. If the outcome flags given are none or more than one, or the reviewer is
  empty, or the review type is not valid, the review command ends in an error and leaves
  the process state exactly as it was: the store with every table and its count of
  transactions begun, and no flush scheduled. So no review, issue update, dirty marker or
  event is produced and no transaction has begun. The error is the validation error of the
  first check that fails (unless \<^verbatim>\<open>cobra\<close> has refused the arguments or
  \<^verbatim>\<open>CheckReadonly\<close> has stopped the command, which happen earlier still).
\<close>

theorem reviewCmd_rejects_invalid_flags:
  assumes "outcomeCount (get_flags given) \<noteq> 1 \<or> f_reviewer (get_flags given) = []
           \<or> \<not> env_IsValid env (f_reviewType (get_flags given))"
  shows "\<exists>e. reviewCmd env given args st = (Inl e, st)
           \<and> (length args = 1 \<and> \<not> env_readonly env \<longrightarrow>
                e = (if outcomeCount (get_flags given) = 0 then MustSpecifyOne
                     else if outcomeCount (get_flags given) > 1 then CanOnlySpecifyOne
                     else if f_reviewer (get_flags given) = [] then ReviewerRequired
                     else InvalidReviewType (f_reviewType (get_flags given))))"
proof (cases args)
  case Nil
  then show ?thesis by (simp add: reviewCmd_def)
next
  case (Cons a rest)
  show ?thesis
  proof (cases rest)
    case Nil
    with Cons review_run_invalid [OF assms, of a st] show ?thesis
      by (simp add: reviewCmd_def)
  next
    case (Cons b rest')
    with \<open>args = a # rest\<close> show ?thesis by (simp add: reviewCmd_def)
  qed
qed

theorem reviewCmd_rejects_invalid_flags_witness:
  "reviewCmd env_sample [(''reviewer'', StringFlag ''alice'')] [''bd-1'']
     \<lparr>store = SQLite store_bd1, flush_scheduled = False\<rparr> =
     (Inl MustSpecifyOne, \<lparr>store = SQLite store_bd1, flush_scheduled = False\<rparr>)
   \<and> reviewCmd env_sample
       [(''approve'', BoolFlag True), (''revise'', BoolFlag True), (''reviewer'', StringFlag ''alice'')]
       [''bd-1''] \<lparr>store = SQLite store_bd1, flush_scheduled = False\<rparr> =
     (Inl CanOnlySpecifyOne, \<lparr>store = SQLite store_bd1, flush_scheduled = False\<rparr>)
   \<and> reviewCmd env_sample [(''approve'', BoolFlag True)] [''bd-1'']
       \<lparr>store = SQLite store_bd1, flush_scheduled = False\<rparr> =
     (Inl ReviewerRequired, \<lparr>store = SQLite store_bd1, flush_scheduled = False\<rparr>)
   \<and> reviewCmd env_sample
       [(''approve'', BoolFlag True), (''reviewer'', StringFlag ''alice''),
        (''type'', StringFlag ''style'')]
       [''bd-1''] \<lparr>store = SQLite store_bd1, flush_scheduled = False\<rparr> =
     (Inl (InvalidReviewType ''style''), \<lparr>store = SQLite store_bd1, flush_scheduled = False\<rparr>)"
proof -
  let ?g1 = "[(''reviewer'', StringFlag ''alice'')]"
  let ?g2 = "[(''approve'', BoolFlag True), (''revise'', BoolFlag True),
              (''reviewer'', StringFlag ''alice'')]"
  let ?g3 = "[(''approve'', BoolFlag True)]"
  let ?g4 = "[(''approve'', BoolFlag True), (''reviewer'', StringFlag ''alice''),
              (''type'', StringFlag ''style'')]"
  let ?st = "\<lparr>store = SQLite store_bd1, flush_scheduled = False\<rparr>"
  have bad:
    "outcomeCount (get_flags ?g1) \<noteq> 1 \<or> f_reviewer (get_flags ?g1) = []
       \<or> \<not> env_IsValid env_sample (f_reviewType (get_flags ?g1))"
    "outcomeCount (get_flags ?g2) \<noteq> 1 \<or> f_reviewer (get_flags ?g2) = []
       \<or> \<not> env_IsValid env_sample (f_reviewType (get_flags ?g2))"
    "outcomeCount (get_flags ?g3) \<noteq> 1 \<or> f_reviewer (get_flags ?g3) = []
       \<or> \<not> env_IsValid env_sample (f_reviewType (get_flags ?g3))"
    "outcomeCount (get_flags ?g4) \<noteq> 1 \<or> f_reviewer (get_flags ?g4) = []
       \<or> \<not> env_IsValid env_sample (f_reviewType (get_flags ?g4))"
    by (simp_all add: get_flags_def GetBool_def GetString_def lookup_flag_def
          reviewCmd_Flags_def outcomeCount_def env_sample_def ReviewType_IsValid_def)
  note none = reviewCmd_rejects_invalid_flags [OF bad(1), of "[''bd-1'']" ?st]
  note two = reviewCmd_rejects_invalid_flags [OF bad(2), of "[''bd-1'']" ?st]
  note anon = reviewCmd_rejects_invalid_flags [OF bad(3), of "[''bd-1'']" ?st]
  note style = reviewCmd_rejects_invalid_flags [OF bad(4), of "[''bd-1'']" ?st]
  show ?thesis
    using none two anon style
    by (simp add: get_flags_def GetBool_def GetString_def lookup_flag_def reviewCmd_Flags_def
          outcomeCount_def env_sample_def ReviewType_IsValid_def)
qed

lemma fold_max_all_le: "\<forall>x \<in> set xs. x \<le> a \<Longrightarrow> fold max xs (a::int) = a"
  by (induction xs) (auto simp: max_def)

lemma fold_max_snoc_next:
  "fold max (xs @ [fold max xs a + 1]) (fold max xs a + 1) = fold max xs (a::int) + 1"
proof -
  have "\<forall>x \<in> set xs. x \<le> fold max xs a + 1"
    using fold_max_ge [of _ xs a] by force
  then have "fold max xs (fold max xs a + 1) = fold max xs a + 1"
    by (rule fold_max_all_le)
  then show ?thesis by simp
qed

lemma CreateReview_None_effects:
  assumes "CreateReview now fault s review actor = (None, r', s')"
  shows "ID r' = fold max (map rv_id (reviews (db s))) (reviews_seq (db s)) + 1"
    and "CreatedAt r' = (if IsZero (CreatedAt review) then now else CreatedAt review)"
    and "issues (db s') =
           map (\<lambda>i. if is_id i = IssueID review
                     then i\<lparr>is_review_status := Some (Outcome review),
                            is_reviewed_by := Some (Reviewer review),
                            is_reviewed_at := Some now, is_updated_at := now\<rparr>
                     else i) (issues (db s))"
    and "fold max (map rv_id (reviews (db s'))) (reviews_seq (db s')) = ID r'"
    and "map is_id (issues (db s')) = map is_id (issues (db s))"
proof -
  from assms obtain tx' where fn: "CreateReview_fn now fault actor (db s) review = (r', Inr tx')"
    and s': "s' = \<lparr>db = tx', tx_begun = Suc (tx_begun s)\<rparr>"
    using CreateReview_NoneD by blast
  from s' have d: "db s' = tx'" by simp
  show id: "ID r' = fold max (map rv_id (reviews (db s))) (reviews_seq (db s)) + 1"
    and "CreatedAt r' = (if IsZero (CreatedAt review) then now else CreatedAt review)"
    using CreateReview_fn_Inr(1) [OF fn] by simp_all
  show iss: "issues (db s') =
           map (\<lambda>i. if is_id i = IssueID review
                     then i\<lparr>is_review_status := Some (Outcome review),
                            is_reviewed_by := Some (Reviewer review),
                            is_reviewed_at := Some now, is_updated_at := now\<rparr>
                     else i) (issues (db s))"
    using CreateReview_fn_Inr(3) [OF fn] d by simp
  show "fold max (map rv_id (reviews (db s'))) (reviews_seq (db s')) = ID r'"
    using CreateReview_fn_Inr(2,9) [OF fn] d id
      fold_max_snoc_next [of "map rv_id (reviews (db s))" "reviews_seq (db s)"]
    by simp
  show "map is_id (issues (db s')) = map is_id (issues (db s))"
    unfolding iss by (induction "issues (db s)") (auto simp: o_def)
qed

lemma reviewCmd_one_arg:
  "\<not> env_readonly env \<Longrightarrow>
     reviewCmd env given [issueID] st = review_run env (get_flags given) issueID st"
  by (simp add: reviewCmd_def)

lemma review_run_effects:
  assumes "outcomeCount fl = 1" "f_reviewer fl \<noteq> []" "env_IsValid env (f_reviewType fl)"
    and "\<forall>x. \<not> env_fault env x"
    and "issueID \<in> set (map is_id (issues (db s)))"
    and "fold max (map rv_id (reviews (db s))) (reviews_seq (db s)) < max_rowid"
  shows "\<exists>out s'.
           review_run env fl issueID \<lparr>store = SQLite s, flush_scheduled = f\<rparr> =
             (Inr out, \<lparr>store = SQLite s', flush_scheduled = True\<rparr>)
           \<and> reviews (db s') = reviews (db s) @
               [\<lparr>rv_id = fold max (map rv_id (reviews (db s))) (reviews_seq (db s)) + 1,
                 rv_issue_id = issueID, rv_review_type = f_reviewType fl,
                 rv_outcome = outcome_of fl, rv_reviewer = f_reviewer fl,
                 rv_notes = Some (f_notes fl), rv_created_at = env_now env\<rparr>]
           \<and> issues (db s') =
               map (\<lambda>i. if is_id i = issueID
                         then i\<lparr>is_review_status := Some (outcome_of fl),
                                is_reviewed_by := Some (f_reviewer fl),
                                is_reviewed_at := Some (env_now env),
                                is_updated_at := env_now env\<rparr>
                         else i) (issues (db s))
           \<and> fold max (map rv_id (reviews (db s'))) (reviews_seq (db s')) =
               fold max (map rv_id (reviews (db s))) (reviews_seq (db s)) + 1"
proof -
  from review_run_succeeds [OF assms(1-4) _ assms(5,6),
      of "\<lparr>store = SQLite s, flush_scheduled = f\<rparr>"]
  obtain issue r' s' where
    run: "CreateReview (env_now env) (env_fault env) s (review_of fl issueID) (env_actor env) =
            (None, r', s')"
    and res: "review_run env fl issueID \<lparr>store = SQLite s, flush_scheduled = f\<rparr> =
               (Inr (review_report env fl issueID issue),
                \<lparr>store = SQLite s', flush_scheduled = True\<rparr>)"
    by auto
  note eff = CreateReview_None_effects [OF run]
  have "reviews (db s') = reviews (db s) @
               [\<lparr>rv_id = fold max (map rv_id (reviews (db s))) (reviews_seq (db s)) + 1,
                 rv_issue_id = issueID, rv_review_type = f_reviewType fl,
                 rv_outcome = outcome_of fl, rv_reviewer = f_reviewer fl,
                 rv_notes = Some (f_notes fl), rv_created_at = env_now env\<rparr>]"
    using CreateReview_None_reviews(1) [OF run] eff(1,2)
    by (simp add: review_of_def IsZero_def)
  moreover have "issues (db s') =
               map (\<lambda>i. if is_id i = issueID
                         then i\<lparr>is_review_status := Some (outcome_of fl),
                                is_reviewed_by := Some (f_reviewer fl),
                                is_reviewed_at := Some (env_now env),
                                is_updated_at := env_now env\<rparr>
                         else i) (issues (db s))"
    using eff(3) by (simp add: review_of_def)
  moreover have "fold max (map rv_id (reviews (db s'))) (reviews_seq (db s')) =
               fold max (map rv_id (reviews (db s))) (reviews_seq (db s)) + 1"
    using eff(1,4) by simp
  ultimately show ?thesis using res by blast
qed



lemmas reviewCmd_unfold =
  reviewCmd_def review_run_def get_flags_def GetBool_def GetString_def lookup_flag_def
  reviewCmd_Flags_def outcomeCount_def outcome_of_def review_of_def review_report_def
  GetIssue_def formatReviewStatus_def ReviewStatus_def ReviewOutcomeApproved_def
  ReviewOutcomeNeedsRevision_def ReviewOutcomeDeferred_def ReviewType_IsValid_def

lemma reviewCmd_approve_run:
  "reviewCmd env_sample [(''approve'', BoolFlag True), (''reviewer'', StringFlag ''alice'')]
     [''bd-1''] \<lparr>store = SQLite store_bd1, flush_scheduled = False\<rparr> =
   (Inr (Lines [''ok Reviewed issue: bd-1'', ''  Title: Parse flags'',
                ''  Status: unreviewed -> approved'', ''  Reviewer: alice'', ''  Type: plan'']),
    \<lparr>store = SQLite store_bd1_approved, flush_scheduled = True\<rparr>)"
  by (simp add: reviewCmd_unfold CreateReview_unfold env_sample_def no_fault_def store_bd1_def
        issue_bd1_def store_bd1_approved_def)




section \<open>The review type\<close>

text \<open>
  Claim C8. The review type ranges over plan, implementation, security and custom. When
  \<^verbatim>\<open>--type\<close> is not given the type is "plan" (the default \<^verbatim>\<open>init\<close> declares). With
  the validity test of the design, a command that is otherwise in order (one outcome flag, a
  reviewer, an existing issue, a writable store without faults) is rejected with the
  invalid-type error, the state unchanged, when its type is outside the four, and succeeds
  when its type is one of the four, the new row of \<^verbatim>\<open>reviews\<close> carrying that type.
\<close>

theorem review_type_range:
  assumes "env_IsValid env = ReviewType_IsValid" "\<not> env_readonly env" "\<forall>x. \<not> env_fault env x"
    and "outcomeCount (get_flags given) = 1" "f_reviewer (get_flags given) \<noteq> []"
    and "issueID \<in> set (map is_id (issues (db s)))"
    and "fold max (map rv_id (reviews (db s))) (reviews_seq (db s)) < max_rowid"
  shows "(map_of given ''type'' = None \<longrightarrow> f_reviewType (get_flags given) = ''plan'')
         \<and> (ReviewType_IsValid (f_reviewType (get_flags given)) \<longleftrightarrow>
              f_reviewType (get_flags given) \<in>
                {''plan'', ''implementation'', ''security'', ''custom''})
         \<and> (f_reviewType (get_flags given) \<notin>
                {''plan'', ''implementation'', ''security'', ''custom''} \<longrightarrow>
              reviewCmd env given [issueID] \<lparr>store = SQLite s, flush_scheduled = f\<rparr> =
                (Inl (InvalidReviewType (f_reviewType (get_flags given))),
                 \<lparr>store = SQLite s, flush_scheduled = f\<rparr>))
         \<and> (f_reviewType (get_flags given) \<in>
                {''plan'', ''implementation'', ''security'', ''custom''} \<longrightarrow>
              (\<exists>out s'.
                 reviewCmd env given [issueID] \<lparr>store = SQLite s, flush_scheduled = f\<rparr> =
                   (Inr out, \<lparr>store = SQLite s', flush_scheduled = True\<rparr>)
                 \<and> reviews (db s') = reviews (db s) @
                     [\<lparr>rv_id = fold max (map rv_id (reviews (db s))) (reviews_seq (db s)) + 1,
                       rv_issue_id = issueID,
                       rv_review_type = f_reviewType (get_flags given),
                       rv_outcome = outcome_of (get_flags given),
                       rv_reviewer = f_reviewer (get_flags given),
                       rv_notes = Some (f_notes (get_flags given)),
                       rv_created_at = env_now env\<rparr>]))"
proof -
  let ?fl = "get_flags given"
  have dflt: "map_of given ''type'' = None \<longrightarrow> f_reviewType ?fl = ''plan''"
    by (simp add: get_flags_def GetString_def lookup_flag_def reviewCmd_Flags_def)
  have valid: "ReviewType_IsValid (f_reviewType ?fl) \<longleftrightarrow>
                 f_reviewType ?fl \<in> {''plan'', ''implementation'', ''security'', ''custom''}"
    by (simp add: ReviewType_IsValid_def)
  have bad: "reviewCmd env given [issueID] \<lparr>store = SQLite s, flush_scheduled = f\<rparr> =
                (Inl (InvalidReviewType (f_reviewType ?fl)),
                 \<lparr>store = SQLite s, flush_scheduled = f\<rparr>)"
    if "f_reviewType ?fl \<notin> {''plan'', ''implementation'', ''security'', ''custom''}"
  proof -
    from that valid assms(1) have "\<not> env_IsValid env (f_reviewType ?fl)" by simp
    then have "outcomeCount ?fl \<noteq> 1 \<or> f_reviewer ?fl = [] \<or> \<not> env_IsValid env (f_reviewType ?fl)"
      by simp
    from review_run_invalid [OF this] assms(2,4,5) show ?thesis
      by (simp add: reviewCmd_one_arg)
  qed
  have good: "\<exists>out s'.
                 reviewCmd env given [issueID] \<lparr>store = SQLite s, flush_scheduled = f\<rparr> =
                   (Inr out, \<lparr>store = SQLite s', flush_scheduled = True\<rparr>)
                 \<and> reviews (db s') = reviews (db s) @
                     [\<lparr>rv_id = fold max (map rv_id (reviews (db s))) (reviews_seq (db s)) + 1,
                       rv_issue_id = issueID,
                       rv_review_type = f_reviewType ?fl,
                       rv_outcome = outcome_of ?fl,
                       rv_reviewer = f_reviewer ?fl,
                       rv_notes = Some (f_notes ?fl),
                       rv_created_at = env_now env\<rparr>]"
    if "f_reviewType ?fl \<in> {''plan'', ''implementation'', ''security'', ''custom''}"
  proof -
    from that valid assms(1) have ok: "env_IsValid env (f_reviewType ?fl)" by simp
    from review_run_effects [OF assms(4,5) ok assms(3,6,7), of f] assms(2)
    show ?thesis by (simp add: reviewCmd_one_arg) blast
  qed
  from dflt valid bad good show ?thesis by blast
qed

lemma reviewCmd_custom_run:
  "reviewCmd env_sample
     [(''approve'', BoolFlag True), (''reviewer'', StringFlag ''alice''),
      (''type'', StringFlag ''custom'')]
     [''bd-1''] \<lparr>store = SQLite store_bd1, flush_scheduled = False\<rparr> =
   (Inr (Lines [''ok Reviewed issue: bd-1'', ''  Title: Parse flags'',
                ''  Status: unreviewed -> approved'', ''  Reviewer: alice'', ''  Type: custom'']),
    \<lparr>store = SQLite (store_bd1_approved
        \<lparr>db := (db store_bd1_approved)
            \<lparr>reviews := [\<lparr>rv_id = 1, rv_issue_id = ''bd-1'', rv_review_type = ''custom'',
                           rv_outcome = ''approved'', rv_reviewer = ''alice'',
                           rv_notes = Some [], rv_created_at = 10\<rparr>]\<rparr>\<rparr>),
      flush_scheduled = True\<rparr>)"
  by (simp add: reviewCmd_unfold CreateReview_unfold env_sample_def no_fault_def store_bd1_def
        issue_bd1_def store_bd1_approved_def)

lemma reviewCmd_style_run:
  "reviewCmd env_sample
     [(''approve'', BoolFlag True), (''reviewer'', StringFlag ''alice''),
      (''type'', StringFlag ''style'')]
     [''bd-1''] \<lparr>store = SQLite store_bd1, flush_scheduled = False\<rparr> =
   (Inl (InvalidReviewType ''style''), \<lparr>store = SQLite store_bd1, flush_scheduled = False\<rparr>)"
  by (simp add: reviewCmd_unfold env_sample_def)

theorem review_type_range_witness:
  "f_reviewType (get_flags [(''approve'', BoolFlag True), (''reviewer'', StringFlag ''alice'')]) =
     ''plan''
   \<and> reviewCmd env_sample [(''approve'', BoolFlag True), (''reviewer'', StringFlag ''alice'')]
       [''bd-1''] \<lparr>store = SQLite store_bd1, flush_scheduled = False\<rparr> =
     (Inr (Lines [''ok Reviewed issue: bd-1'', ''  Title: Parse flags'',
                  ''  Status: unreviewed -> approved'', ''  Reviewer: alice'', ''  Type: plan'']),
      \<lparr>store = SQLite store_bd1_approved, flush_scheduled = True\<rparr>)
   \<and> map rv_review_type (reviews (db store_bd1_approved)) = [''plan'']
   \<and> fst (reviewCmd env_sample
       [(''approve'', BoolFlag True), (''reviewer'', StringFlag ''alice''),
        (''type'', StringFlag ''custom'')]
       [''bd-1''] \<lparr>store = SQLite store_bd1, flush_scheduled = False\<rparr>) =
     Inr (Lines [''ok Reviewed issue: bd-1'', ''  Title: Parse flags'',
                 ''  Status: unreviewed -> approved'', ''  Reviewer: alice'',
                 ''  Type: custom''])
   \<and> reviewCmd env_sample
       [(''approve'', BoolFlag True), (''reviewer'', StringFlag ''alice''),
        (''type'', StringFlag ''style'')]
       [''bd-1''] \<lparr>store = SQLite store_bd1, flush_scheduled = False\<rparr> =
     (Inl (InvalidReviewType ''style''), \<lparr>store = SQLite store_bd1, flush_scheduled = False\<rparr>)
   \<and> ReviewType_IsValid ''implementation'' \<and> ReviewType_IsValid ''security''"
proof -
  let ?g1 = "[(''approve'', BoolFlag True), (''reviewer'', StringFlag ''alice'')]"
  let ?g2 = "[(''approve'', BoolFlag True), (''reviewer'', StringFlag ''alice''),
              (''type'', StringFlag ''custom'')]"
  let ?g3 = "[(''approve'', BoolFlag True), (''reviewer'', StringFlag ''alice''),
              (''type'', StringFlag ''style'')]"
  have env: "env_IsValid env_sample = ReviewType_IsValid" "\<not> env_readonly env_sample"
    "\<forall>x. \<not> env_fault env_sample x"
    by (simp_all add: env_sample_def no_fault_def)
  have flags:
    "outcomeCount (get_flags ?g1) = 1" "f_reviewer (get_flags ?g1) \<noteq> []"
    "outcomeCount (get_flags ?g2) = 1" "f_reviewer (get_flags ?g2) \<noteq> []"
    "outcomeCount (get_flags ?g3) = 1" "f_reviewer (get_flags ?g3) \<noteq> []"
    by (simp_all add: get_flags_def GetBool_def GetString_def lookup_flag_def
          reviewCmd_Flags_def outcomeCount_def)
  have st: "''bd-1'' \<in> set (map is_id (issues (db store_bd1)))"
    "fold max (map rv_id (reviews (db store_bd1))) (reviews_seq (db store_bd1)) < max_rowid"
    by (simp_all add: store_bd1_def issue_bd1_def max_rowid_def)
  note plan = review_type_range [OF env flags(1,2) st, of False]
  note custom = review_type_range [OF env flags(3,4) st, of False]
  note style = review_type_range [OF env flags(5,6) st, of False]
  show ?thesis
    using plan custom style reviewCmd_approve_run reviewCmd_custom_run reviewCmd_style_run
    by (simp add: get_flags_def GetString_def lookup_flag_def reviewCmd_Flags_def
          ReviewType_IsValid_def store_bd1_approved_def)
qed

end
